theory Spec2Isabelle
  imports Main "HOL-Library.Sublist"
begin

section \<open>The diagnostic macros of \<open>include/helloworld/debug.hpp\<close>\<close>

text \<open>
  The header defines preprocessor macros only. A macro argument is the text of an
  expression, and the expansion evaluates it wherever (and as often as) the text occurs.
  An argument expression is therefore modelled as a computation over the state of the
  calling program, and a macro as a function from such computations to a statement.
  The condition and the message arguments may have side effects on the program state;
  the two standard streams record every write made to them.

  What the macros call lies outside the header: \<open>fprintf\<close>, \<open>std::terminate\<close> and the order
  in which a compiler evaluates the arguments of a call. Whatever the language leaves to
  the implementation is a parameter of the model (the record \<open>impl\<close> below), and the
  properties are proved for every value of it.
\<close>

subsection \<open>Program state, streams and outcomes\<close>

text \<open>
  An expression evaluated in program state \<open>s\<close> yields a value and the state after its
  side effects.
\<close>

type_synonym ('s, 'v) expr = "'s \<Rightarrow> 'v \<times> 's"

text \<open>
  The world a statement runs in: the program's own state, and the sequence of writes each
  stream has received (one element per call that writes; the bytes of the stream are
  their concatenation). The error stream is taken to accept every write and to pass it on
  at once, as it does unless the program has given it a buffer.
\<close>

record 's world =
  prog :: 's
  stderr :: "string list"
  stdout :: "string list"

text \<open>
  What running a statement gives: control reaches the next statement; or the process has
  been ended by \<open>abort\<close> (signal \<open>SIGABRT\<close>); or it has been ended with an exit status; or
  the behaviour is not defined (see \<open>format\<close> below).
\<close>

datatype 's outcome = Normal "'s world" | Aborted "'s world" | Exited nat "'s world" | Undefined

type_synonym 's stmt = "'s world \<Rightarrow> 's outcome"

text \<open>A source location, the values of \<open>__FILE__\<close> and \<open>__LINE__\<close> where a macro is used.\<close>

record call_site =
  file_name :: string
  line_no :: nat

text \<open>A constant expression, with no side effect.\<close>

definition lit :: "'v \<Rightarrow> ('s, 'v) expr" where
  "lit v = (\<lambda>s. (v, s))"

text \<open>The empty statement (what an empty expansion followed by \<open>;\<close> is).\<close>

definition skip :: "'s stmt" where
  "skip w = Normal w"

text \<open>\<open>a; b\<close>: the second statement runs only when control leaves the first normally.\<close>

definition seq :: "'s stmt \<Rightarrow> 's stmt \<Rightarrow> 's stmt" where
  "seq a b w =
     (case a w of
        Normal w' \<Rightarrow> b w'
      | Aborted w' \<Rightarrow> Aborted w'
      | Exited n w' \<Rightarrow> Exited n w'
      | Undefined \<Rightarrow> Undefined)"

text \<open>\<open>if (c) { body }\<close> with no \<open>else\<close>: the condition is evaluated, then tested.\<close>

definition if_then :: "('s, bool) expr \<Rightarrow> 's stmt \<Rightarrow> 's stmt" where
  "if_then c body w =
     (case c (prog w) of (b, s') \<Rightarrow> if b then body (w\<lparr>prog := s'\<rparr>) else Normal (w\<lparr>prog := s'\<rparr>))"

subsection \<open>Values and conversions of the output primitive\<close>

text \<open>
  The value of a variadic argument of \<open>fprintf\<close>: an \<open>int\<close> (given by its mathematical
  value; only its decimal digits and its low byte are used, so no arithmetic can
  overflow), a pointer to a string (given by the characters it points to), or a value of
  any other kind (\<open>unsigned\<close>, \<open>long\<close>, \<open>double\<close>, a pointer, ...), of a type left open.
\<close>

datatype 'x arg = AInt int | AStr string | AOther 'x

text \<open>
  How the implementation treats the conversions that the header itself does not use:
  given the conversion specification (the characters after \<open>%\<close>), the number of characters
  written so far and the arguments not yet consumed, the text produced, the arguments
  left, and what the conversion stores into the program's memory (only \<open>%n\<close> stores);
  \<open>None\<close> where the call is undefined.
\<close>

type_synonym ('s, 'x) conv = "string \<Rightarrow> nat \<Rightarrow> 'x arg list \<Rightarrow> (string \<times> 'x arg list \<times> ('s \<Rightarrow> 's)) option"

text \<open>
  The implementation a program is built for and runs on:
  \<^item> \<open>order n\<close>: the order in which the \<open>n\<close> arguments of a call are evaluated, as a list
    of positions (C++ leaves the order open);
  \<^item> \<open>conversions\<close>: the library's conversions, as above;
  \<^item> \<open>handler\<close>: the terminate handler in force. The header installs none; the handler of
    the C++ runtime ends in \<open>std::abort\<close>, and may write a message of its own before.
\<close>

record ('s, 'x) impl =
  order :: "nat \<Rightarrow> nat list"
  conversions :: "('s, 'x) conv"
  handler :: "'s stmt"

text \<open>
  \<open>std::terminate()\<close> calls the terminate handler. The handler is required not to return;
  when it does, the runtime calls \<open>abort\<close>. In no case does control come back.
\<close>

definition std_terminate :: "'s stmt \<Rightarrow> 's stmt" where
  "std_terminate h w =
     (case h w of
        Normal w' \<Rightarrow> Aborted w'
      | Aborted w' \<Rightarrow> Aborted w'
      | Exited n w' \<Rightarrow> Exited n w'
      | Undefined \<Rightarrow> Undefined)"

text \<open>
  Decimal digits, as \<open>%d\<close> prints them. \<open>digit\<close> is only ever applied to a number below
  ten (\<open>show_nat\<close> tests \<open>n < 10\<close> or takes \<open>n mod 10\<close>).
\<close>

fun digit :: "nat \<Rightarrow> char" where
  "digit n = ''0123456789'' ! n"

fun show_nat :: "nat \<Rightarrow> string" where
  "show_nat n = (if n < 10 then [digit n] else show_nat (n div 10) @ [digit (n mod 10)])"

declare show_nat.simps [simp del]

definition show_int :: "int \<Rightarrow> string" where
  "show_int i = (if i < 0 then CHR ''-'' # show_nat (nat (- i)) else show_nat (nat i))"

text \<open>
  A C string ends at its first NUL character: what \<open>fprintf\<close> reads of a character array,
  be it the format or the argument of \<open>%s\<close>.
\<close>

definition c_str :: "string \<Rightarrow> string" where
  "c_str cs = takeWhile (\<lambda>c. c \<noteq> CHR 0x00) cs"

text \<open>
  A conversion specification: after the \<open>%\<close>, any flags, field width, precision and length
  modifier, then one conversion specifier. The characters are those of ISO C, with the
  flag \<open>'\<close> and the specifiers \<open>C\<close> and \<open>S\<close> of POSIX and the specifier \<open>m\<close> of the GNU
  library. \<open>split_spec\<close> cuts the text after a \<open>%\<close> into the specification and the rest of
  the format; there is none when the format ends before a specifier or the character
  there is not one (the call is undefined then). Whether a specification that is cut out
  is a valid one is for \<open>convert\<close> to say.
\<close>

definition is_modifier :: "char \<Rightarrow> bool" where
  "is_modifier c = (c \<in> set (''-+ #0123456789.*hlLjzt'' @ [CHR 0x27]))"

definition is_specifier :: "char \<Rightarrow> bool" where
  "is_specifier c = (c \<in> set ''diouxXfFeEgGaAcspn%CSm'')"

definition split_spec :: "string \<Rightarrow> (string \<times> string) option" where
  "split_spec cs =
     (case dropWhile is_modifier cs of
        [] \<Rightarrow> None
      | d # rest \<Rightarrow> if is_specifier d then Some (takeWhile is_modifier cs @ [d], rest) else None)"

text \<open>
  One conversion. The four that the header's own format and the examples use, \<open>%%\<close>, \<open>%d\<close>,
  \<open>%c\<close> and \<open>%s\<close> without flags, width or precision, are written out; a missing argument or
  one of the wrong kind makes the call undefined. Every other specification is the
  implementation's.
\<close>

definition convert ::
  "('s, 'x) conv \<Rightarrow> string \<Rightarrow> nat \<Rightarrow> 'x arg list \<Rightarrow> (string \<times> 'x arg list \<times> ('s \<Rightarrow> 's)) option" where
  "convert other spec n args =
     (if spec = ''%'' then Some (''%'', args, id)
      else if spec = ''d'' then
        (case args of AInt i # args' \<Rightarrow> Some (show_int i, args', id) | _ \<Rightarrow> None)
      else if spec = ''c'' then
        (case args of AInt i # args' \<Rightarrow> Some ([char_of i], args', id) | _ \<Rightarrow> None)
      else if spec = ''s'' then
        (case args of AStr s # args' \<Rightarrow> Some (c_str s, args', id) | _ \<Rightarrow> None)
      else other spec n args)"

text \<open>
  The formatting done by \<open>fprintf\<close>: the text written and what is stored, or \<open>None\<close> where
  the call is undefined. \<open>n\<close> counts the characters written so far. Arguments left over
  when the format is exhausted are ignored, as in C.
\<close>

function format ::
  "('s, 'x) conv \<Rightarrow> string \<Rightarrow> nat \<Rightarrow> 'x arg list \<Rightarrow> (string \<times> ('s \<Rightarrow> 's)) option" where
  "format other [] n args = Some ([], id)"
| "format other (c # cs) n args =
     (if c \<noteq> CHR ''%'' then map_option (\<lambda>(t, u). (c # t, u)) (format other cs (Suc n) args)
      else (case split_spec cs of
          None \<Rightarrow> None
        | Some (spec, rest) \<Rightarrow>
            (case convert other spec n args of
               None \<Rightarrow> None
             | Some (t1, args', u1) \<Rightarrow>
                 map_option (\<lambda>(t, u). (t1 @ t, u \<circ> u1))
                   (format other rest (n + length t1) args'))))"
  by pat_completeness auto
termination
proof (relation "measure (\<lambda>(other, fmt, n, args). length fmt)")
  show "wf (measure (\<lambda>(other :: ('s, 'x) conv, fmt :: string, n :: nat, args :: 'x arg list). length fmt))"
    by simp
next
  fix other :: "('s, 'x) conv" and c :: char and cs :: string and n :: nat and args :: "'x arg list"
  show "((other, cs, Suc n, args), (other, c # cs, n, args))
      \<in> measure (\<lambda>(other, fmt, n, args). length fmt)"
    by simp
next
  fix other :: "('s, 'x) conv" and c :: char and cs :: string and n :: nat and args :: "'x arg list"
    and x2 x y x2a xa ya xb yb
  assume "split_spec cs = Some x2" and "(x, y) = x2"
  then have "length y < length cs + 1"
    using length_dropWhile_le [of is_modifier cs]
    by (auto simp: split_spec_def split: list.splits if_splits)
  then show "((other, y, n + length xa, xb), (other, c # cs, n, args))
      \<in> measure (\<lambda>(other, fmt, n, args). length fmt)"
    by simp
qed

subsection \<open>Evaluating the arguments of a call\<close>

text \<open>
  The order in which the \<open>n\<close> arguments of a call are evaluated, made from what the
  implementation says: a position is taken where it is first named, and the positions
  not named follow in ascending order. So every position occurs in it exactly once,
  whatever \<open>ord\<close> is, and every order is \<open>arg_order ord n\<close> for some \<open>ord\<close>.
\<close>

definition arg_order :: "(nat \<Rightarrow> nat list) \<Rightarrow> nat \<Rightarrow> nat list" where
  "arg_order ord n =
     remdups (filter (\<lambda>i. i < n) (ord n)) @ filter (\<lambda>i. i \<notin> set (ord n)) [0..<n]"

text \<open>
  The state reached from \<open>s\<close> when the arguments at the listed positions are evaluated
  one after the other.
\<close>

definition effects :: "('s, 'v) expr list \<Rightarrow> nat list \<Rightarrow> 's \<Rightarrow> 's" where
  "effects es positions s = foldl (\<lambda>t j. snd ((es ! j) t)) s positions"

text \<open>
  The arguments of a call are evaluated once each, in the order of the implementation:
  the value of each is the one it has in the state left by those taken before it, and the
  state after the call's arguments is the one left by all of them. (The positions of
  \<open>arg_order\<close> are exactly those below the length of the list, so every \<open>es ! j\<close> here is
  an argument of the call.)
\<close>

definition eval_args :: "(nat \<Rightarrow> nat list) \<Rightarrow> ('s, 'v) expr list \<Rightarrow> 's \<Rightarrow> 'v list \<times> 's" where
  "eval_args ord es s =
     (let turn = arg_order ord (length es)
      in (map (\<lambda>i. fst ((es ! i) (effects es (takeWhile (\<lambda>j. j \<noteq> i) turn) s))) [0..<length es],
          effects es turn s))"

text \<open>
  \<open>fprintf(stderr, fmt, args...)\<close>: the arguments are evaluated, the format is read as a C
  string, the text is formatted and written to the error stream as one write. The value
  \<open>fprintf\<close> returns is dropped by every caller in the header.
\<close>

definition fprintf_stderr :: "('s, 'x) impl \<Rightarrow> string \<Rightarrow> ('s, 'x arg) expr list \<Rightarrow> 's stmt" where
  "fprintf_stderr env fmt args w =
     (case eval_args (order env) args (prog w) of (vs, s') \<Rightarrow>
        (case format (conversions env) (c_str fmt) 0 vs of
           None \<Rightarrow> Undefined
         | Some (text, u) \<Rightarrow> Normal (w\<lparr>prog := u s', stderr := stderr w @ [text]\<rparr>)))"

subsection \<open>The macros\<close>

text \<open>
  \<open>stderr_print(level, M, ...)\<close>. \<open>M\<close> is pasted between two string literals, so it is a
  string literal itself: a string, not an expression.
\<close>

definition stderr_print ::
  "('s, 'x) impl \<Rightarrow> call_site \<Rightarrow> string \<Rightarrow> string \<Rightarrow> ('s, 'x arg) expr list \<Rightarrow> 's stmt" where
  "stderr_print env cs level M args =
     fprintf_stderr env (''[%s] %s:%d - '' @ M @ ''\<newline>'')
       (lit (AStr level) # lit (AStr (file_name cs)) # lit (AInt (int (line_no cs))) # args)"

definition info :: "('s, 'x) impl \<Rightarrow> call_site \<Rightarrow> string \<Rightarrow> ('s, 'x arg) expr list \<Rightarrow> 's stmt" where
  "info env cs M args = stderr_print env cs ''Info'' M args"

definition warn :: "('s, 'x) impl \<Rightarrow> call_site \<Rightarrow> string \<Rightarrow> ('s, 'x arg) expr list \<Rightarrow> 's stmt" where
  "warn env cs M args = stderr_print env cs ''Warn'' M args"

definition error :: "('s, 'x) impl \<Rightarrow> call_site \<Rightarrow> string \<Rightarrow> ('s, 'x arg) expr list \<Rightarrow> 's stmt" where
  "error env cs M args = stderr_print env cs ''Error'' M args"

definition panic :: "('s, 'x) impl \<Rightarrow> call_site \<Rightarrow> string \<Rightarrow> ('s, 'x arg) expr list \<Rightarrow> 's stmt" where
  "panic env cs M args =
     seq (stderr_print env cs ''Panic'' M args)
       (seq (stderr_print env cs ''Panic'' ''Program terminated due to the error above.'' [])
          (std_terminate (handler env)))"

text \<open>
  Modelled from the spec: \<open>unlikely\<close> is defined in \<open>common.hpp\<close>, which is not among the
  sources; the spec describes it as a branch hint that is advisory for performance only,
  so it leaves the value and the effects of its argument as they are.
\<close>

definition unlikely :: "('s, bool) expr \<Rightarrow> ('s, bool) expr" where
  "unlikely c = c"

definition info_if ::
  "('s, 'x) impl \<Rightarrow> call_site \<Rightarrow> ('s, bool) expr \<Rightarrow> string \<Rightarrow> ('s, 'x arg) expr list \<Rightarrow> 's stmt" where
  "info_if env cs cond M args = if_then cond (info env cs M args)"

definition warn_if ::
  "('s, 'x) impl \<Rightarrow> call_site \<Rightarrow> ('s, bool) expr \<Rightarrow> string \<Rightarrow> ('s, 'x arg) expr list \<Rightarrow> 's stmt" where
  "warn_if env cs cond M args = if_then cond (warn env cs M args)"

definition error_if ::
  "('s, 'x) impl \<Rightarrow> call_site \<Rightarrow> ('s, bool) expr \<Rightarrow> string \<Rightarrow> ('s, 'x arg) expr list \<Rightarrow> 's stmt" where
  "error_if env cs cond M args = if_then (unlikely cond) (error env cs M args)"

definition panic_if ::
  "('s, 'x) impl \<Rightarrow> call_site \<Rightarrow> ('s, bool) expr \<Rightarrow> string \<Rightarrow> ('s, 'x arg) expr list \<Rightarrow> 's stmt" where
  "panic_if env cs cond M args = if_then (unlikely cond) (panic env cs M args)"

text \<open>
  \<open>check(cond, ...)\<close>: the condition initialises the local \<open>__cond\<close>, and the branch reads
  the local.
\<close>

definition check ::
  "('s, 'x) impl \<Rightarrow> call_site \<Rightarrow> ('s, bool) expr \<Rightarrow> string \<Rightarrow> ('s, 'x arg) expr list \<Rightarrow> 's stmt" where
  "check env cs cond M args w =
     (case cond (prog w) of (cond_local, s') \<Rightarrow>
        if_then (unlikely (lit (\<not> cond_local))) (panic env cs M args) (w\<lparr>prog := s'\<rparr>))"

text \<open>
  The \<open>d\<close>-prefixed macros. Which of the two groups of definitions the preprocessor keeps
  depends on whether \<open>NDEBUG\<close> is defined; \<open>ndebug\<close> is that fact. In the second group every
  expansion is empty.
\<close>

definition dcheck ::
  "bool \<Rightarrow> ('s, 'x) impl \<Rightarrow> call_site \<Rightarrow> ('s, bool) expr \<Rightarrow> string \<Rightarrow> ('s, 'x arg) expr list \<Rightarrow> 's stmt" where
  "dcheck ndebug env cs cond M args = (if \<not> ndebug then check env cs cond M args else skip)"

definition dinfo ::
  "bool \<Rightarrow> ('s, 'x) impl \<Rightarrow> call_site \<Rightarrow> string \<Rightarrow> ('s, 'x arg) expr list \<Rightarrow> 's stmt" where
  "dinfo ndebug env cs M args = (if \<not> ndebug then info env cs M args else skip)"

definition dwarn ::
  "bool \<Rightarrow> ('s, 'x) impl \<Rightarrow> call_site \<Rightarrow> string \<Rightarrow> ('s, 'x arg) expr list \<Rightarrow> 's stmt" where
  "dwarn ndebug env cs M args = (if \<not> ndebug then warn env cs M args else skip)"

definition derror ::
  "bool \<Rightarrow> ('s, 'x) impl \<Rightarrow> call_site \<Rightarrow> string \<Rightarrow> ('s, 'x arg) expr list \<Rightarrow> 's stmt" where
  "derror ndebug env cs M args = (if \<not> ndebug then error env cs M args else skip)"

definition dpanic ::
  "bool \<Rightarrow> ('s, 'x) impl \<Rightarrow> call_site \<Rightarrow> string \<Rightarrow> ('s, 'x arg) expr list \<Rightarrow> 's stmt" where
  "dpanic ndebug env cs M args = (if \<not> ndebug then panic env cs M args else skip)"

definition dinfo_if ::
  "bool \<Rightarrow> ('s, 'x) impl \<Rightarrow> call_site \<Rightarrow> ('s, bool) expr \<Rightarrow> string \<Rightarrow> ('s, 'x arg) expr list \<Rightarrow> 's stmt" where
  "dinfo_if ndebug env cs cond M args = (if \<not> ndebug then info_if env cs cond M args else skip)"

definition dwarn_if ::
  "bool \<Rightarrow> ('s, 'x) impl \<Rightarrow> call_site \<Rightarrow> ('s, bool) expr \<Rightarrow> string \<Rightarrow> ('s, 'x arg) expr list \<Rightarrow> 's stmt" where
  "dwarn_if ndebug env cs cond M args = (if \<not> ndebug then warn_if env cs cond M args else skip)"

definition derror_if ::
  "bool \<Rightarrow> ('s, 'x) impl \<Rightarrow> call_site \<Rightarrow> ('s, bool) expr \<Rightarrow> string \<Rightarrow> ('s, 'x arg) expr list \<Rightarrow> 's stmt" where
  "derror_if ndebug env cs cond M args = (if \<not> ndebug then error_if env cs cond M args else skip)"

definition dpanic_if ::
  "bool \<Rightarrow> ('s, 'x) impl \<Rightarrow> call_site \<Rightarrow> ('s, bool) expr \<Rightarrow> string \<Rightarrow> ('s, 'x arg) expr list \<Rightarrow> 's stmt" where
  "dpanic_if ndebug env cs cond M args = (if \<not> ndebug then panic_if env cs cond M args else skip)"

subsection \<open>What the claims observe\<close>

text \<open>
  The definitions of this subsection are not in the header: they name what the
  specification talks about, so that its sentences can be stated.

  The head of a record, and the text of one record as the specification gives it,
  \<open>[<Level>] <file>:<line> - <message>\<close> followed by a newline. The file is \<open>__FILE__\<close> as
  the C string it is (a file name holds no NUL character, so it is the name itself).
\<close>

definition record_head :: "string \<Rightarrow> call_site \<Rightarrow> string" where
  "record_head level cs =
     ''['' @ level @ ''] '' @ c_str (file_name cs) @ '':'' @ show_nat (line_no cs) @ '' - ''"

definition spec_line :: "string \<Rightarrow> call_site \<Rightarrow> string \<Rightarrow> string" where
  "spec_line level cs message = record_head level cs @ message @ ''\<newline>''"



text \<open>The world a statement leaves behind, when its behaviour is defined.\<close>

definition final :: "'s outcome \<Rightarrow> 's world option" where
  "final r =
     (case r of Normal w \<Rightarrow> Some w | Aborted w \<Rightarrow> Some w | Exited n w \<Rightarrow> Some w | Undefined \<Rightarrow> None)"




text \<open>
  The order of the variadic arguments of a call that has three arguments before them,
  as \<open>stderr_print\<close>'s call has: their positions among themselves, in the order in which
  the whole call takes them.
\<close>

definition variadic :: "(nat \<Rightarrow> nat list) \<Rightarrow> nat \<Rightarrow> nat list" where
  "variadic ord n = map (\<lambda>i. i - 3) (filter (\<lambda>i. 3 \<le> i) (arg_order ord (n + 3)))"

text \<open>The four severity labels, and the three macros that only write, each with its label.\<close>

definition levels :: "string list" where
  "levels = [''Info'', ''Warn'', ''Error'', ''Panic'']"


text \<open>
  A record of a call site: a text that starts with \<open>[<Level>] <file>:<line> - \<close> for
  exactly one of the four labels, with the file and line of that call site.
\<close>

definition is_record :: "call_site \<Rightarrow> string \<Rightarrow> bool" where
  "is_record cs r = (length (filter (\<lambda>level. prefix (record_head level cs) r) levels) = 1)"

text \<open>
  Every macro the header offers, used at one call site with one condition, message and
  argument list (a macro without a condition ignores it), as a function of the
  implementation.
\<close>

definition facility ::
  "bool \<Rightarrow> call_site \<Rightarrow> ('s, bool) expr \<Rightarrow> string \<Rightarrow> ('s, 'x arg) expr list \<Rightarrow>
     (('s, 'x) impl \<Rightarrow> 's stmt) list" where
  "facility ndebug cs cond M args =
     [\<lambda>env. info env cs M args, \<lambda>env. warn env cs M args, \<lambda>env. error env cs M args,
      \<lambda>env. panic env cs M args,
      \<lambda>env. info_if env cs cond M args, \<lambda>env. warn_if env cs cond M args,
      \<lambda>env. error_if env cs cond M args, \<lambda>env. panic_if env cs cond M args,
      \<lambda>env. check env cs cond M args,
      \<lambda>env. dcheck ndebug env cs cond M args,
      \<lambda>env. dinfo ndebug env cs M args, \<lambda>env. dwarn ndebug env cs M args,
      \<lambda>env. derror ndebug env cs M args, \<lambda>env. dpanic ndebug env cs M args,
      \<lambda>env. dinfo_if ndebug env cs cond M args, \<lambda>env. dwarn_if ndebug env cs cond M args,
      \<lambda>env. derror_if ndebug env cs cond M args, \<lambda>env. dpanic_if ndebug env cs cond M args]"


text \<open>
  Two terminate handlers: the one the C++ standard describes as the default, which calls
  \<open>std::abort\<close> and nothing else, and one that first writes a line of its own to the error
  stream, as the handler of the GNU runtime does.
\<close>

definition abort_handler :: "'s stmt" where
  "abort_handler w = Aborted w"

definition verbose_handler :: "'s stmt" where
  "verbose_handler w =
     Aborted (w\<lparr>stderr := stderr w @ [''terminate called without an active exception\<newline>'']\<rparr>)"

text \<open>Two orders of evaluation: first argument first, and last argument first.\<close>

definition left_to_right :: "nat \<Rightarrow> nat list" where
  "left_to_right n = [0..<n]"

definition right_to_left :: "nat \<Rightarrow> nat list" where
  "right_to_left n = rev [0..<n]"

text \<open>
  An expression with a side effect that can be counted: the program state is a log, and
  each evaluation of \<open>logged name v\<close> appends \<open>name\<close> to it and yields \<open>v\<close>.
\<close>

definition logged :: "string \<Rightarrow> 'v \<Rightarrow> (string list, 'v) expr" where
  "logged name v = (\<lambda>log. (v, log @ [name]))"

text \<open>
  Conversions for the examples: \<open>%5d\<close> pads the decimal digits of an \<open>int\<close> to five
  characters, and \<open>%n\<close> stores the number of characters written so far through its
  pointer argument, which shows in the log under the name of the variable pointed to.
\<close>

definition sample_conversions :: "(string list, string) conv" where
  "sample_conversions spec n args =
     (if spec = ''5d'' then
        (case args of
           AInt i # args' \<Rightarrow>
             Some (replicate (5 - length (show_int i)) CHR '' '' @ show_int i, args', id)
         | _ \<Rightarrow> None)
      else if spec = ''n'' then
        (case args of
           AOther p # args' \<Rightarrow> Some ([], args', \<lambda>log. log @ [p @ '' = '' @ show_nat n])
         | _ \<Rightarrow> None)
      else None)"

text \<open>
  The implementation, call site and world used in the examples: arguments are taken last
  to first and the terminate handler writes its line, as under the GNU compiler and
  runtime.
\<close>

definition sample_impl :: "(string list, string) impl" where
  "sample_impl =
     \<lparr>order = right_to_left, conversions = sample_conversions, handler = verbose_handler\<rparr>"

definition main_cpp_42 :: call_site where
  "main_cpp_42 = \<lparr>file_name = ''main.cpp'', line_no = 42\<rparr>"

definition fresh :: "string list world" where
  "fresh = \<lparr>prog = [], stderr = [], stdout = []\<rparr>"

text \<open>
  Properties of statements, used in the proofs. A world \<open>grows\<close> into another when the
  standard output is the same and the error stream has only gained records of the call
  site.
\<close>

definition grows :: "call_site \<Rightarrow> 's world \<Rightarrow> 's world \<Rightarrow> bool" where
  "grows cs w w1 =
     (stdout w1 = stdout w \<and> prefix (stderr w) (stderr w1) \<and>
      list_all (is_record cs) (drop (length (stderr w)) (stderr w1)))"

text \<open>
  A macro, as a function of the implementation, writes \<open>own_records\<close> when every run of
  it is undefined, or continues from a world the first has grown into, or reaches
  \<open>std::terminate\<close> in such a world; the run under the handler that only aborts shows
  that world.
\<close>

definition own_records :: "call_site \<Rightarrow> (('s, 'x) impl \<Rightarrow> 's stmt) \<Rightarrow> bool" where
  "own_records cs op =
     (\<forall>env w.
        (op env w = Undefined \<and> op (env\<lparr>handler := abort_handler\<rparr>) w = Undefined) \<or>
        (\<exists>w1. grows cs w w1 \<and>
           ((op env w = Normal w1 \<and> op (env\<lparr>handler := abort_handler\<rparr>) w = Normal w1) \<or>
            (op env w = std_terminate (handler env) w1 \<and>
             op (env\<lparr>handler := abort_handler\<rparr>) w = Aborted w1))))"



section \<open>Properties\<close>

subsection \<open>The order of evaluation\<close>

lemma distinct_arg_order: "distinct (arg_order ord n)"
  by (auto simp: arg_order_def)

lemma set_arg_order: "set (arg_order ord n) = {0..<n}"
  by (auto simp: arg_order_def)

lemma arg_order_fixed:
  assumes "distinct (ord n)" and "set (ord n) = {0..<n}"
  shows "arg_order ord n = ord n"
proof -
  have "filter (\<lambda>i. i < n) (ord n) = ord n"
    using assms(2) by (simp add: filter_id_conv)
  moreover have "filter (\<lambda>i. i \<notin> set (ord n)) [0..<n] = []"
    using assms(2) by (simp add: filter_empty_conv)
  ultimately show ?thesis
    using assms(1) by (simp add: arg_order_def)
qed

lemma distinct_variadic: "distinct (variadic ord n)"
proof -
  have "inj_on (\<lambda>i. i - 3) {i. (3::nat) \<le> i}"
    by (rule inj_onI) simp
  then have "inj_on (\<lambda>i. i - 3) (set (filter (\<lambda>i. 3 \<le> i) (arg_order ord (n + 3))))"
    by (rule inj_on_subset) auto
  then show ?thesis
    by (simp add: variadic_def distinct_map distinct_arg_order)
qed

lemma set_variadic: "set (variadic ord n) = {0..<n}"
proof
  show "set (variadic ord n) \<subseteq> {0..<n}"
    by (auto simp: variadic_def set_arg_order)
next
  show "{0..<n} \<subseteq> set (variadic ord n)"
  proof
    fix i
    assume "i \<in> {0..<n}"
    then have "i + 3 \<in> set (filter (\<lambda>i. 3 \<le> i) (arg_order ord (n + 3)))"
      by (simp add: set_arg_order)
    then have "(i + 3) - 3 \<in> (\<lambda>i. i - 3) ` set (filter (\<lambda>i. 3 \<le> i) (arg_order ord (n + 3)))"
      by (rule imageI)
    then show "i \<in> set (variadic ord n)"
      by (simp add: variadic_def)
  qed
qed

lemma arg_order_variadic: "arg_order (variadic ord) n = variadic ord n"
  by (rule arg_order_fixed) (rule distinct_variadic, rule set_variadic)

subsection \<open>Evaluating arguments\<close>

lemma effects_Nil [simp]: "effects es [] s = s"
  by (simp add: effects_def)

lemma effects_Cons [simp]: "effects es (j # js) s = effects es js (snd ((es ! j) s))"
  by (simp add: effects_def)

lemma effects_lit: "set js \<subseteq> {0..<length vs} \<Longrightarrow> effects (map lit vs) js s = s"
  by (induction js) (simp_all add: lit_def)

lemma eval_args_lit: "eval_args ord (map lit vs) s = (vs, s)"
proof -
  let ?turn = "arg_order ord (length vs)"
  have in_range: "set (takeWhile P ?turn) \<subseteq> {0..<length vs}" for P
    using set_takeWhileD [of _ P ?turn] by (auto simp: set_arg_order)
  have "map (\<lambda>i. fst ((map lit vs ! i) (effects (map lit vs) (takeWhile (\<lambda>j. j \<noteq> i) ?turn) s)))
      [0..<length vs] = map (\<lambda>i. vs ! i) [0..<length vs]"
    by (rule map_cong) (simp_all add: lit_def)
  moreover have "effects (map lit vs) ?turn s = s"
    by (rule effects_lit) (simp add: set_arg_order)
  ultimately show ?thesis
    by (simp add: eval_args_def Let_def map_nth)
qed

lemma effects_header:
  "effects (lit a # lit b # lit c # args) js s =
     effects args (map (\<lambda>i. i - 3) (filter (\<lambda>i. 3 \<le> i) js)) s"
proof (induction js arbitrary: s)
  case Nil
  show ?case by simp
next
  case (Cons j js)
  show ?case
  proof (cases "3 \<le> j")
    case True
    then have "(lit a # lit b # lit c # args) ! j = args ! (j - 3)"
      by (simp add: nth_Cons' numeral_3_eq_3)
    with True Cons show ?thesis by simp
  next
    case False
    then have "j = 0 \<or> j = 1 \<or> j = 2" by arith
    then have "snd (((lit a # lit b # lit c # args) ! j) s) = s"
      by (auto simp: lit_def)
    with False Cons show ?thesis by simp
  qed
qed

lemma takeWhile_variadic:
  "map (\<lambda>i. i - 3) (filter (\<lambda>i. 3 \<le> i) (takeWhile (\<lambda>j. j \<noteq> i + 3) js)) =
     takeWhile (\<lambda>j. j \<noteq> (i::nat)) (map (\<lambda>i. i - 3) (filter (\<lambda>i. 3 \<le> i) js))"
proof (induction js)
  case Nil
  show ?case by simp
next
  case (Cons j js)
  then show ?case
    by (cases "3 \<le> j") auto
qed

lemma eval_args_header:
  "eval_args ord (lit a # lit b # lit c # args) s =
     (case eval_args (variadic ord) args s of (vs, s') \<Rightarrow> (a # b # c # vs, s'))"
proof -
  let ?es = "lit a # lit b # lit c # args"
  let ?n = "length args"
  let ?turn = "arg_order ord (?n + 3)"
  have upt: "[0..<?n + 3] = 0 # 1 # 2 # map (\<lambda>i. i + 3) [0..<?n]"
  proof -
    have "[0..<?n + 3] = [0..<3] @ [3..<?n + 3]"
      by (metis add.commute le_add2 upt_add_eq_append zero_le)
    also have "[3..<?n + 3] = map (\<lambda>i. i + 3) [0..<?n]"
      by (simp add: map_add_upt)
    also have "[0..<3] = [0, 1, 2::nat]"
      by (simp add: upt_rec)
    finally show ?thesis by simp
  qed
  have value_at: "fst ((?es ! (i + 3)) (effects ?es (takeWhile (\<lambda>j. j \<noteq> i + 3) ?turn) s)) =
      fst ((args ! i) (effects args (takeWhile (\<lambda>j. j \<noteq> i) (variadic ord ?n)) s))" for i
    by (simp add: effects_header takeWhile_variadic variadic_def)
  have len: "length ?es = ?n + 3"
    by simp
  have heads: "fst ((?es ! 0) t) = a" "fst ((?es ! 1) t) = b" "fst ((?es ! 2) t) = c" for t
    by (simp_all add: lit_def)
  have positional: "map (\<lambda>i. fst ((?es ! i) (effects ?es (takeWhile (\<lambda>j. j \<noteq> i) ?turn) s))) [0..<?n + 3] =
      a # b # c #
      map (\<lambda>i. fst ((args ! i) (effects args (takeWhile (\<lambda>j. j \<noteq> i) (variadic ord ?n)) s))) [0..<?n]"
    unfolding upt by (simp only: list.map heads map_map comp_def value_at)
  have after: "effects ?es ?turn s = effects args (variadic ord ?n) s"
    by (simp add: effects_header variadic_def)
  have "eval_args ord ?es s = (a # b # c #
      map (\<lambda>i. fst ((args ! i) (effects args (takeWhile (\<lambda>j. j \<noteq> i) (variadic ord ?n)) s))) [0..<?n],
      effects args (variadic ord ?n) s)"
    unfolding eval_args_def Let_def len positional after by (rule refl)
  moreover have "eval_args (variadic ord) args s =
      (map (\<lambda>i. fst ((args ! i) (effects args (takeWhile (\<lambda>j. j \<noteq> i) (variadic ord ?n)) s))) [0..<?n],
      effects args (variadic ord ?n) s)"
    by (simp add: eval_args_def Let_def arg_order_variadic)
  ultimately show ?thesis
    by simp
qed

subsection \<open>Formatting a record\<close>

lemma c_str_id: "CHR 0x00 \<notin> set cs \<Longrightarrow> c_str cs = cs"
  by (auto simp: c_str_def takeWhile_eq_all_conv)


lemma c_str_format_string:
  "c_str (''[%s] %s:%d - '' @ M @ ''\<newline>'') = ''[%s] %s:%d - '' @ c_str (M @ ''\<newline>'')"
  by (simp add: c_str_def)

lemma c_str_levels: "level \<in> set levels \<Longrightarrow> c_str level = level"
  by (auto simp: levels_def c_str_def)

lemma show_int_nat: "show_int (int n) = show_nat n"
  by (simp add: show_int_def)

lemma newline_plain:
  "\<not> is_modifier CHR ''\<newline>''" "\<not> is_specifier CHR ''\<newline>''"
  by (simp_all add: is_modifier_def is_specifier_def)

lemma split_spec_newline:
  "split_spec (cs @ ''\<newline>'') =
     map_option (\<lambda>(spec, rest). (spec, rest @ ''\<newline>'')) (split_spec cs)"
proof (cases "\<forall>x \<in> set cs. is_modifier x")
  case True
  then have none: "dropWhile is_modifier cs = []"
    by simp
  from True have last: "dropWhile is_modifier (cs @ ''\<newline>'') = ''\<newline>''"
    by (simp add: newline_plain)
  show ?thesis
    unfolding split_spec_def none last by (simp add: newline_plain)
next
  case False
  then obtain x where x: "x \<in> set cs" "\<not> is_modifier x"
    by blast
  then have "dropWhile is_modifier (cs @ ''\<newline>'') = dropWhile is_modifier cs @ ''\<newline>''"
    and "takeWhile is_modifier (cs @ ''\<newline>'') = takeWhile is_modifier cs"
    by simp_all
  moreover from x have "dropWhile is_modifier cs \<noteq> []"
    by auto
  ultimately show ?thesis
    by (cases "dropWhile is_modifier cs") (simp_all add: split_spec_def)
qed

lemma format_newline:
  "format other (M @ ''\<newline>'') n vs =
     map_option (\<lambda>(t, u). (t @ ''\<newline>'', u)) (format other M n vs)"
proof (induction other M n vs rule: format.induct)
  case (1 other n args)
  show ?case by simp
next
  case (2 other c cs n args)
  show ?case
  proof (cases "c = CHR ''%''")
    case False
    with 2 show ?thesis
      by (simp add: option.map_comp comp_def case_prod_beta)
  next
    case percent: True
    show ?thesis
    proof (cases "split_spec cs")
      case None
      with percent show ?thesis
        by (simp add: split_spec_newline)
    next
      case (Some sr)
      obtain spec rest where sr: "sr = (spec, rest)"
        by (cases sr)
      show ?thesis
      proof (cases "convert other spec n args")
        case None
        with percent Some sr show ?thesis
          by (simp add: split_spec_newline)
      next
        case (Some r)
        obtain t1 args' u1 where r: "r = (t1, args', u1)"
          by (cases r)
        from "2.IH"(2) [OF _ \<open>split_spec cs = Some sr\<close> sr [symmetric] Some r [symmetric] refl] percent
        have "format other (rest @ ''\<newline>'') (n + length t1) args' =
            map_option (\<lambda>(t, u). (t @ ''\<newline>'', u)) (format other rest (n + length t1) args')"
          by simp
        with percent \<open>split_spec cs = Some sr\<close> sr Some r show ?thesis
          by (simp add: split_spec_newline option.map_comp comp_def case_prod_beta)
      qed
    qed
  qed
qed

lemma format_header:
  "format other (''[%s] %s:%d - '' @ F) 0 (AStr l # AStr f # AInt (int k) # vs) =
     map_option (\<lambda>(t, u). (''['' @ c_str l @ ''] '' @ c_str f @ '':'' @ show_nat k @ '' - '' @ t, u))
       (format other F (length (''['' @ c_str l @ ''] '' @ c_str f @ '':'' @ show_nat k @ '' - '')) vs)"
  by (simp add: split_spec_def is_modifier_def is_specifier_def convert_def show_int_nat
      option.map_comp comp_def case_prod_unfold add.commute add.left_commute)

subsection \<open>One record, and the two of panic\<close>

lemma stderr_print_any:
  assumes "eval_args (variadic (order env)) args (prog w) = (vs, s')" and "level \<in> set levels"
  shows "stderr_print env cs level M args w =
     (case format (conversions env) (c_str (M @ ''\<newline>'')) (length (record_head level cs)) vs of
        None \<Rightarrow> Undefined
      | Some (t, u) \<Rightarrow> Normal (w\<lparr>prog := u s', stderr := stderr w @ [record_head level cs @ t]\<rparr>))"
proof -
  have args: "eval_args (order env)
      (lit (AStr level) # lit (AStr (file_name cs)) # lit (AInt (int (line_no cs))) # args) (prog w) =
      (AStr level # AStr (file_name cs) # AInt (int (line_no cs)) # vs, s')"
    using assms(1) by (simp add: eval_args_header)
  have head: "''['' @ c_str level @ ''] '' @ c_str (file_name cs) @ '':'' @ show_nat (line_no cs) @ '' - '' =
      record_head level cs"
    using assms(2) by (simp add: record_head_def c_str_levels)
  have head_app: "''['' @ c_str level @ ''] '' @ c_str (file_name cs) @ '':'' @ show_nat (line_no cs) @ '' - '' @ t =
      record_head level cs @ t" for t
    using assms(2) by (simp add: record_head_def c_str_levels)
  have "format (conversions env) (''[%s] %s:%d - '' @ c_str (M @ ''\<newline>'')) 0
      (AStr level # AStr (file_name cs) # AInt (int (line_no cs)) # vs) =
    map_option (\<lambda>(t, u). (record_head level cs @ t, u))
      (format (conversions env) (c_str (M @ ''\<newline>'')) (length (record_head level cs)) vs)"
    unfolding format_header head head_app by (rule refl)
  then show ?thesis
    unfolding stderr_print_def fprintf_stderr_def args c_str_format_string
    by (cases "format (conversions env) (c_str (M @ ''\<newline>'')) (length (record_head level cs)) vs")
      (auto simp del: format.simps)
qed

lemma stderr_print_run:
  assumes "eval_args (variadic (order env)) args (prog w) = (vs, s')" and "level \<in> set levels"
    and "CHR 0x00 \<notin> set M"
  shows "stderr_print env cs level M args w =
     (case format (conversions env) M (length (record_head level cs)) vs of
        None \<Rightarrow> Undefined
      | Some (m, u) \<Rightarrow> Normal (w\<lparr>prog := u s', stderr := stderr w @ [spec_line level cs m]\<rparr>))"
proof -
  from assms(3) have whole: "c_str (M @ ''\<newline>'') = M @ ''\<newline>''"
    by (simp add: c_str_id)
  show ?thesis
    unfolding stderr_print_any [OF assms(1,2)] whole format_newline
    by (cases "format (conversions env) M (length (record_head level cs)) vs")
      (auto simp: spec_line_def)
qed

lemma eval_args_Nil: "eval_args ord [] s = ([], s)"
  using eval_args_lit [of ord "[]" s] by simp

lemma format_notice:
  "format other ''Program terminated due to the error above.\<newline>'' n [] =
     Some (''Program terminated due to the error above.\<newline>'', id)"
  by simp

lemma notice_run:
  "stderr_print env cs ''Panic'' ''Program terminated due to the error above.'' [] w =
     Normal (w\<lparr>stderr := stderr w @
       [spec_line ''Panic'' cs ''Program terminated due to the error above.'']\<rparr>)"
proof -
  have "eval_args (variadic (order env)) [] (prog w) = ([] :: 'b arg list, prog w)"
    by (rule eval_args_Nil)
  then show ?thesis
    by (subst stderr_print_any [where vs = "[]" and s' = "prog w"])
      (simp_all add: levels_def c_str_def spec_line_def del: format.simps add: format_notice)
qed

lemma panic_any:
  assumes "eval_args (variadic (order env)) args (prog w) = (vs, s')"
  shows "panic env cs M args w =
     (case format (conversions env) (c_str (M @ ''\<newline>'')) (length (record_head ''Panic'' cs)) vs of
        None \<Rightarrow> Undefined
      | Some (t, u) \<Rightarrow> std_terminate (handler env)
          (w\<lparr>prog := u s', stderr := stderr w @
            [record_head ''Panic'' cs @ t,
             spec_line ''Panic'' cs ''Program terminated due to the error above.'']\<rparr>))"
proof -
  have level: "''Panic'' \<in> set levels"
    by (simp add: levels_def)
  show ?thesis
    unfolding panic_def seq_def stderr_print_any [OF assms level]
    by (cases "format (conversions env) (c_str (M @ ''\<newline>'')) (length (record_head ''Panic'' cs)) vs")
      (auto simp: notice_run simp del: format.simps)
qed

lemma panic_run:
  assumes "eval_args (variadic (order env)) args (prog w) = (vs, s')" and "CHR 0x00 \<notin> set M"
  shows "panic env cs M args w =
     (case format (conversions env) M (length (record_head ''Panic'' cs)) vs of
        None \<Rightarrow> Undefined
      | Some (m, u) \<Rightarrow> std_terminate (handler env)
          (w\<lparr>prog := u s', stderr := stderr w @
            [spec_line ''Panic'' cs m,
             spec_line ''Panic'' cs ''Program terminated due to the error above.'']\<rparr>))"
proof -
  from assms(2) have whole: "c_str (M @ ''\<newline>'') = M @ ''\<newline>''"
    by (simp add: c_str_id)
  show ?thesis
    unfolding panic_any [OF assms(1)] whole format_newline
    by (cases "format (conversions env) M (length (record_head ''Panic'' cs)) vs")
      (auto simp: spec_line_def)
qed




subsection \<open>Lines\<close>




subsection \<open>The implementation of the examples\<close>

lemma upt_from_3: "[0..<n + 3] = [0, 1, 2] @ map (\<lambda>i. i + 3) [0..<n]"
proof -
  have "[0..<n + 3] = [0..<3] @ [3..<n + 3]"
    by (metis add.commute upt_add_eq_append zero_le)
  also have "[3..<n + 3] = map (\<lambda>i. i + 3) [0..<n]"
    by (simp add: map_add_upt)
  also have "[0..<3] = [0, 1, 2::nat]"
    by (simp add: upt_rec)
  finally show ?thesis .
qed

lemma variadic_right_to_left: "variadic right_to_left n = rev [0..<n]"
proof -
  have "arg_order right_to_left (n + 3) = rev [0..<n + 3]"
    by (simp add: arg_order_fixed right_to_left_def)
  then show ?thesis
    unfolding variadic_def upt_from_3
    by (simp add: rev_map [symmetric] filter_map comp_def rev_filter [symmetric])
qed

lemma sample_order: "variadic (order sample_impl) n = rev [0..<n]"
  by (simp add: sample_impl_def variadic_right_to_left)

lemma variadic_left_to_right: "variadic left_to_right n = [0..<n]"
proof -
  have "arg_order left_to_right (n + 3) = [0..<n + 3]"
    by (simp add: arg_order_fixed left_to_right_def)
  then show ?thesis
    unfolding variadic_def upt_from_3
    by (simp add: filter_map comp_def)
qed

lemma sample_heads:
  "record_head ''Info'' main_cpp_42 = ''[Info] main.cpp:42 - ''"
  "record_head ''Warn'' main_cpp_42 = ''[Warn] main.cpp:42 - ''"
  "record_head ''Error'' main_cpp_42 = ''[Error] main.cpp:42 - ''"
  "record_head ''Panic'' main_cpp_42 = ''[Panic] main.cpp:42 - ''"
  by (simp_all add: record_head_def main_cpp_42_def c_str_def show_nat.simps)

lemma handler_update [simp]:
  "order (env\<lparr>handler := h\<rparr>) = order env" "conversions (env\<lparr>handler := h\<rparr>) = conversions env"
  by simp_all

subsection \<open>Claim C1: what info, warn and error write\<close>




subsection \<open>Claim C2: what panic writes, and that it ends the process\<close>




subsection \<open>Claims C3 and C4: check\<close>

text \<open>
  C3: \<open>check\<close> with a condition that evaluates to false does what \<open>panic\<close> does with the same
  message and arguments, started after the condition's own side effects; with the
  condition \<open>false\<close> itself the two statements are the same.
\<close>

theorem check_false_is_panic:
  assumes "cond (prog w) = (False, s')"
  shows "check env cs cond M args w = panic env cs M args (w\<lparr>prog := s'\<rparr>) \<and>
         check env cs (lit False) M args = panic env cs M args"
proof -
  have "check env cs (lit False) M args x = panic env cs M args x" for x :: "'a world"
    by (simp add: check_def if_then_def unlikely_def lit_def)
  then have "check env cs (lit False) M args = panic env cs M args"
    by (rule ext)
  with assms show ?thesis
    by (simp add: check_def if_then_def unlikely_def lit_def)
qed

theorem check_false_is_panic_witness:
  "check sample_impl main_cpp_42 (logged ''c'' False) ''bad state'' [] fresh =
     Aborted \<lparr>prog = [''c''],
       stderr = [''[Panic] main.cpp:42 - bad state\<newline>'',
                 ''[Panic] main.cpp:42 - Program terminated due to the error above.\<newline>'',
                 ''terminate called without an active exception\<newline>''],
       stdout = []\<rparr> \<and>
   check sample_impl main_cpp_42 (lit False) ''bad state'' [] fresh =
     panic sample_impl main_cpp_42 ''bad state'' [] fresh"
proof -
  have c: "logged ''c'' False (prog fresh) = (False, [''c''])"
    by (simp add: logged_def fresh_def)
  show ?thesis
    using c check_false_is_panic [where cond = "logged ''c'' False" and w = fresh
        and s' = "[''c'']" and env = sample_impl and cs = main_cpp_42 and M = "''bad state''"
        and args = "[]"]
    by (simp add: panic_run [where vs = "[]" and s' = "[''c'']"] eval_args_Nil fresh_def
        spec_line_def sample_heads std_terminate_def sample_impl_def verbose_handler_def)
qed

text \<open>
  C4: \<open>check\<close> with a condition that evaluates to true writes nothing and lets control
  continue; the condition has been evaluated once (the state is the one its single
  evaluation leaves), and the message arguments not at all.
\<close>

theorem check_true_continues:
  assumes "cond (prog w) = (True, s')"
  shows "check env cs cond M args w = Normal (w\<lparr>prog := s'\<rparr>)"
  using assms by (simp add: check_def if_then_def unlikely_def lit_def)

theorem check_true_continues_witness:
  "check sample_impl main_cpp_42 (logged ''c'' True) ''bad state %d'' [logged ''a'' (AInt 1)] fresh =
     Normal \<lparr>prog = [''c''], stderr = [], stdout = []\<rparr>"
proof -
  have c: "logged ''c'' True (prog fresh) = (True, [''c''])"
    by (simp add: logged_def fresh_def)
  show ?thesis
    using c check_true_continues [where cond = "logged ''c'' True" and w = fresh
        and s' = "[''c'']" and env = sample_impl and cs = main_cpp_42 and M = "''bad state %d''"
        and args = "[logged ''a'' (AInt 1)]"]
    by (simp add: fresh_def)
qed

subsection \<open>Claims C5 and C6: the debug-gated family\<close>

text \<open>
  C5: with \<open>NDEBUG\<close> defined every \<open>d\<close>-prefixed macro is the empty statement: the world is
  left exactly as it was, so nothing is written, the process goes on (also after
  \<open>dpanic\<close>), and neither the condition nor any argument has been evaluated.
\<close>

theorem release_mode_no_op:
  "dcheck True env cs cond M args w = Normal w \<and>
   dinfo True env cs M args w = Normal w \<and>
   dwarn True env cs M args w = Normal w \<and>
   derror True env cs M args w = Normal w \<and>
   dpanic True env cs M args w = Normal w \<and>
   dinfo_if True env cs cond M args w = Normal w \<and>
   dwarn_if True env cs cond M args w = Normal w \<and>
   derror_if True env cs cond M args w = Normal w \<and>
   dpanic_if True env cs cond M args w = Normal w"
  by (simp add: dcheck_def dinfo_def dwarn_def derror_def dpanic_def
      dinfo_if_def dwarn_if_def derror_if_def dpanic_if_def skip_def)

text \<open>
  C6: without \<open>NDEBUG\<close> every \<open>d\<close>-prefixed macro is the macro it is named after, as a
  statement: same writes, same evaluation of the condition and the arguments, same
  termination.
\<close>

theorem debug_mode_pass_through:
  "dcheck False env cs cond M args = check env cs cond M args \<and>
   dinfo False env cs M args = info env cs M args \<and>
   dwarn False env cs M args = warn env cs M args \<and>
   derror False env cs M args = error env cs M args \<and>
   dpanic False env cs M args = panic env cs M args \<and>
   dinfo_if False env cs cond M args = info_if env cs cond M args \<and>
   dwarn_if False env cs cond M args = warn_if env cs cond M args \<and>
   derror_if False env cs cond M args = error_if env cs cond M args \<and>
   dpanic_if False env cs cond M args = panic_if env cs cond M args"
  by (simp add: dcheck_def dinfo_def dwarn_def derror_def dpanic_def
      dinfo_if_def dwarn_if_def derror_if_def dpanic_if_def)

subsection \<open>Claim C7: the conditional variants\<close>

text \<open>
  C7: each of \<open>info_if\<close>, \<open>warn_if\<close>, \<open>error_if\<close> and \<open>panic_if\<close> evaluates its condition once.
  When the value is true it then does what its base macro does with the remaining
  arguments; when it is false control continues with nothing written and the message
  arguments not evaluated: only the condition's effects have happened.
\<close>

theorem conditional_variants:
  assumes "cond (prog w) = (b, s')"
  shows "info_if env cs cond M args w =
           (if b then info env cs M args (w\<lparr>prog := s'\<rparr>) else Normal (w\<lparr>prog := s'\<rparr>)) \<and>
         warn_if env cs cond M args w =
           (if b then warn env cs M args (w\<lparr>prog := s'\<rparr>) else Normal (w\<lparr>prog := s'\<rparr>)) \<and>
         error_if env cs cond M args w =
           (if b then error env cs M args (w\<lparr>prog := s'\<rparr>) else Normal (w\<lparr>prog := s'\<rparr>)) \<and>
         panic_if env cs cond M args w =
           (if b then panic env cs M args (w\<lparr>prog := s'\<rparr>) else Normal (w\<lparr>prog := s'\<rparr>))"
  using assms
  by (simp add: info_if_def warn_if_def error_if_def panic_if_def if_then_def unlikely_def)

theorem conditional_variants_witness:
  "info_if sample_impl main_cpp_42 (logged ''c'' False) ''n = %d'' [logged ''a'' (AInt 7)] fresh =
     Normal \<lparr>prog = [''c''], stderr = [], stdout = []\<rparr> \<and>
   panic_if sample_impl main_cpp_42 (logged ''c'' False) ''n = %d'' [logged ''a'' (AInt 7)] fresh =
     Normal \<lparr>prog = [''c''], stderr = [], stdout = []\<rparr> \<and>
   warn_if sample_impl main_cpp_42 (logged ''c'' True) ''n = %d'' [logged ''a'' (AInt 7)] fresh =
     Normal \<lparr>prog = [''c'', ''a''], stderr = [''[Warn] main.cpp:42 - n = 7\<newline>''], stdout = []\<rparr>"
proof -
  have f: "logged ''c'' False (prog fresh) = (False, [''c''])"
    and t: "logged ''c'' True (prog fresh) = (True, [''c''])"
    by (simp_all add: logged_def fresh_def)
  have e: "eval_args (variadic (order sample_impl)) [logged ''a'' (AInt 7)]
      (prog (fresh\<lparr>prog := [''c'']\<rparr>)) = ([AInt 7], [''c'', ''a''])"
    by (simp add: eval_args_def arg_order_variadic sample_order logged_def fresh_def)
  have p: "warn sample_impl main_cpp_42 ''n = %d'' [logged ''a'' (AInt 7)] (fresh\<lparr>prog := [''c'']\<rparr>) =
      Normal \<lparr>prog = [''c'', ''a''], stderr = [''[Warn] main.cpp:42 - n = 7\<newline>''], stdout = []\<rparr>"
    unfolding warn_def
    by (subst stderr_print_run [OF e])
      (simp_all add: levels_def sample_heads split_spec_def is_modifier_def is_specifier_def
        convert_def show_int_def show_nat.simps spec_line_def fresh_def)
  show ?thesis
    using f t p
      conditional_variants [where cond = "logged ''c'' False" and w = fresh and b = False
        and s' = "[''c'']" and env = sample_impl and cs = main_cpp_42 and M = "''n = %d''"
        and args = "[logged ''a'' (AInt 7)]"]
      conditional_variants [where cond = "logged ''c'' True" and w = fresh and b = True
        and s' = "[''c'']" and env = sample_impl and cs = main_cpp_42 and M = "''n = %d''"
        and args = "[logged ''a'' (AInt 7)]"]
    by (simp add: fresh_def)
qed

subsection \<open>Claim C10: the arguments are evaluated once\<close>

lemma stderr_print_values:
  assumes "level \<in> set levels"
  shows "stderr_print env cs level M args w =
     (case eval_args (variadic (order env)) args (prog w) of
        (vs, s') \<Rightarrow> stderr_print env cs level M (map lit vs) (w\<lparr>prog := s'\<rparr>))"
proof -
  obtain vs s' where e: "eval_args (variadic (order env)) args (prog w) = (vs, s')"
    by (cases "eval_args (variadic (order env)) args (prog w)")
  have e': "eval_args (variadic (order env)) (map lit vs) (prog (w\<lparr>prog := s'\<rparr>)) = (vs, s')"
    by (simp add: eval_args_lit)
  show ?thesis
    unfolding e prod.case stderr_print_any [OF e assms] stderr_print_any [OF e' assms]
    by (simp split: option.split)
qed

lemma panic_values:
  "panic env cs M args w =
     (case eval_args (variadic (order env)) args (prog w) of
        (vs, s') \<Rightarrow> panic env cs M (map lit vs) (w\<lparr>prog := s'\<rparr>))"
proof -
  obtain vs s' where e: "eval_args (variadic (order env)) args (prog w) = (vs, s')"
    by (cases "eval_args (variadic (order env)) args (prog w)")
  have e': "eval_args (variadic (order env)) (map lit vs) (prog (w\<lparr>prog := s'\<rparr>)) = (vs, s')"
    by (simp add: eval_args_lit)
  show ?thesis
    unfolding e prod.case panic_any [OF e] panic_any [OF e']
    by (simp split: option.split)
qed

text \<open>
  C10: a call of \<open>info\<close>, \<open>warn\<close>, \<open>error\<close> or \<open>panic\<close> does what the same call does with
  constants in place of the arguments, namely the values the arguments yield when the
  argument list is evaluated once, started in the state that this one evaluation leaves.
  That state is reached by taking the effect of one argument after the other along an
  order in which every position of the list occurs exactly once; which order is the
  implementation's. The second record of \<open>panic\<close> has no arguments and evaluates nothing
  again.
\<close>

theorem arguments_evaluated_once:
  "info env cs M args w =
     (case eval_args (variadic (order env)) args (prog w) of
        (vs, s') \<Rightarrow> info env cs M (map lit vs) (w\<lparr>prog := s'\<rparr>)) \<and>
   warn env cs M args w =
     (case eval_args (variadic (order env)) args (prog w) of
        (vs, s') \<Rightarrow> warn env cs M (map lit vs) (w\<lparr>prog := s'\<rparr>)) \<and>
   error env cs M args w =
     (case eval_args (variadic (order env)) args (prog w) of
        (vs, s') \<Rightarrow> error env cs M (map lit vs) (w\<lparr>prog := s'\<rparr>)) \<and>
   panic env cs M args w =
     (case eval_args (variadic (order env)) args (prog w) of
        (vs, s') \<Rightarrow> panic env cs M (map lit vs) (w\<lparr>prog := s'\<rparr>)) \<and>
   snd (eval_args (variadic (order env)) args (prog w)) =
     effects args (variadic (order env) (length args)) (prog w) \<and>
   sort (variadic (order env) (length args)) = [0..<length args]"
proof -
  have "snd (eval_args (variadic (order env)) args (prog w)) =
      effects args (variadic (order env) (length args)) (prog w)"
    by (simp add: eval_args_def Let_def arg_order_variadic)
  moreover have "sort (variadic (order env) (length args)) = [0..<length args]"
    by (rule sorted_distinct_set_unique) (simp_all add: distinct_variadic set_variadic)
  moreover have "''Info'' \<in> set levels" "''Warn'' \<in> set levels" "''Error'' \<in> set levels"
    by (simp_all add: levels_def)
  ultimately show ?thesis
    unfolding info_def warn_def error_def
    by (simp only: stderr_print_values [symmetric] panic_values [symmetric] simp_thms)
qed

theorem arguments_evaluated_once_witness:
  "map_option prog (final (info sample_impl main_cpp_42 ''%d %s %d''
       [logged ''a'' (AInt 1), logged ''b'' (AStr ''two''), logged ''c'' (AInt 3)] fresh)) =
     Some [''c'', ''b'', ''a''] \<and>
   map_option prog (final (info (sample_impl\<lparr>order := left_to_right\<rparr>) main_cpp_42 ''%d %s %d''
       [logged ''a'' (AInt 1), logged ''b'' (AStr ''two''), logged ''c'' (AInt 3)] fresh)) =
     Some [''a'', ''b'', ''c''] \<and>
   map_option prog (final (panic sample_impl main_cpp_42 ''%d %s %d''
       [logged ''a'' (AInt 1), logged ''b'' (AStr ''two''), logged ''c'' (AInt 3)] fresh)) =
     Some [''c'', ''b'', ''a'']"
proof -
  let ?args = "[logged ''a'' (AInt 1), logged ''b'' (AStr ''two''), logged ''c'' (AInt 3)]"
  let ?vs = "[AInt 1, AStr ''two'', AInt 3]"
  have r: "eval_args (variadic (order sample_impl)) ?args (prog fresh) = (?vs, [''c'', ''b'', ''a''])"
    by (simp add: eval_args_def arg_order_variadic sample_order logged_def fresh_def)
  have l: "eval_args (variadic (order (sample_impl\<lparr>order := left_to_right\<rparr>))) ?args (prog fresh) =
      (?vs, [''a'', ''b'', ''c''])"
    by (simp add: eval_args_def arg_order_variadic variadic_left_to_right logged_def fresh_def)
  have f: "format other ''%d %s %d'' n ?vs = Some (''1 two 3'', id)"
    for other :: "(string list, string) conv" and n
    by (simp add: split_spec_def is_modifier_def is_specifier_def convert_def
        c_str_def show_int_def show_nat.simps comp_def)
  have h: "handler sample_impl = verbose_handler"
    by (simp add: sample_impl_def)
  have el: "eval_args ord (map lit ?vs) s = (?vs, s)" for ord and s :: "string list"
    by (rule eval_args_lit)
  have i: "map_option prog (final (info env main_cpp_42 ''%d %s %d'' (map lit ?vs) w)) = Some (prog w)"
    for env :: "(string list, string) impl" and w
    unfolding info_def
    by (subst stderr_print_run [OF el])
      (simp_all add: levels_def f final_def del: format.simps)
  have p: "map_option prog (final (panic sample_impl main_cpp_42 ''%d %s %d'' (map lit ?vs) w)) =
      Some (prog w)" for w
    by (subst panic_run [OF el])
      (simp_all add: f h final_def std_terminate_def verbose_handler_def del: format.simps)
  show ?thesis
    using arguments_evaluated_once [of sample_impl main_cpp_42 "''%d %s %d''" ?args fresh]
      arguments_evaluated_once [of "sample_impl\<lparr>order := left_to_right\<rparr>" main_cpp_42
        "''%d %s %d''" ?args fresh]
    by (simp only: r l prod.case i p) simp
qed

subsection \<open>Claim C8: records go to the error stream, with one label and the call site\<close>

lemma is_record_head:
  assumes "level \<in> set levels"
  shows "is_record cs (record_head level cs @ t)"
proof -
  from assms consider "level = ''Info''" | "level = ''Warn''" | "level = ''Error''" | "level = ''Panic''"
    by (auto simp: levels_def)
  then show ?thesis
    by cases (simp_all add: is_record_def record_head_def levels_def)
qed

lemma grows_same: "grows cs w (w\<lparr>prog := s\<rparr>)"
  by (simp add: grows_def)

lemma grows_one: "is_record cs r \<Longrightarrow> grows cs w (w\<lparr>prog := s, stderr := stderr w @ [r]\<rparr>)"
  by (simp add: grows_def)

lemma grows_two:
  "is_record cs r1 \<Longrightarrow> is_record cs r2 \<Longrightarrow> grows cs w (w\<lparr>prog := s, stderr := stderr w @ [r1, r2]\<rparr>)"
  by (simp add: grows_def)

lemma grows_moved: "grows cs (w\<lparr>prog := s\<rparr>) w1 \<Longrightarrow> grows cs w w1"
  by (simp add: grows_def)

lemma stderr_print_handler:
  "stderr_print (env\<lparr>handler := h\<rparr>) cs level M args = stderr_print env cs level M args"
  by (rule ext) (simp add: stderr_print_def fprintf_stderr_def)

lemma own_records_skip: "own_records cs (\<lambda>env. skip)"
proof -
  have "grows cs w w" for w :: "'a world"
    using grows_same [where cs = cs and w = w and s = "prog w"] by simp
  then show ?thesis
    unfolding own_records_def skip_def by blast
qed

lemma own_records_stderr_print:
  assumes "level \<in> set levels"
  shows "own_records cs (\<lambda>env. stderr_print env cs level M args)"
  unfolding own_records_def stderr_print_handler
proof (intro allI)
  fix env :: "('a, 'b) impl" and w :: "'a world"
  let ?st = "stderr_print env cs level M args"
  obtain vs s' where e: "eval_args (variadic (order env)) args (prog w) = (vs, s')"
    by (cases "eval_args (variadic (order env)) args (prog w)")
  show "(?st w = Undefined \<and> ?st w = Undefined) \<or>
      (\<exists>w1. grows cs w w1 \<and>
         ((?st w = Normal w1 \<and> ?st w = Normal w1) \<or>
          (?st w = std_terminate (handler env) w1 \<and> ?st w = Aborted w1)))"
  proof (cases "format (conversions env) (c_str (M @ ''\<newline>'')) (length (record_head level cs)) vs")
    case None
    then show ?thesis
      by (simp add: stderr_print_any [OF e assms])
  next
    case (Some tu)
    obtain t u where "tu = (t, u)"
      by (cases tu)
    with Some have "?st w = Normal (w\<lparr>prog := u s', stderr := stderr w @ [record_head level cs @ t]\<rparr>)"
      by (simp add: stderr_print_any [OF e assms])
    moreover have "grows cs w (w\<lparr>prog := u s', stderr := stderr w @ [record_head level cs @ t]\<rparr>)"
      by (rule grows_one) (rule is_record_head [OF assms])
    ultimately show ?thesis
      by blast
  qed
qed

lemma own_records_panic: "own_records cs (\<lambda>env. panic env cs M args)"
  unfolding own_records_def
proof (intro allI)
  fix env :: "('a, 'b) impl" and w :: "'a world"
  let ?env0 = "env\<lparr>handler := abort_handler\<rparr>"
  obtain vs s' where e: "eval_args (variadic (order env)) args (prog w) = (vs, s')"
    by (cases "eval_args (variadic (order env)) args (prog w)")
  then have e0: "eval_args (variadic (order ?env0)) args (prog w) = (vs, s')"
    by simp
  have panic_level: "''Panic'' \<in> set levels"
    by (simp add: levels_def)
  show "(panic env cs M args w = Undefined \<and> panic ?env0 cs M args w = Undefined) \<or>
      (\<exists>w1. grows cs w w1 \<and>
         ((panic env cs M args w = Normal w1 \<and> panic ?env0 cs M args w = Normal w1) \<or>
          (panic env cs M args w = std_terminate (handler env) w1 \<and>
           panic ?env0 cs M args w = Aborted w1)))"
  proof (cases "format (conversions env) (c_str (M @ ''\<newline>'')) (length (record_head ''Panic'' cs)) vs")
    case None
    then show ?thesis
      by (simp add: panic_any [OF e] panic_any [OF e0])
  next
    case (Some tu)
    obtain t u where tu: "tu = (t, u)"
      by (cases tu)
    let ?w2 = "w\<lparr>prog := u s', stderr := stderr w @
        [record_head ''Panic'' cs @ t,
         spec_line ''Panic'' cs ''Program terminated due to the error above.'']\<rparr>"
    from Some tu have "panic env cs M args w = std_terminate (handler env) ?w2"
      by (simp add: panic_any [OF e])
    moreover from Some tu have "panic ?env0 cs M args w = Aborted ?w2"
      by (simp add: panic_any [OF e0] std_terminate_def abort_handler_def)
    moreover have "grows cs w ?w2"
      unfolding spec_line_def
      by (rule grows_two) (rule is_record_head [OF panic_level])+
    ultimately show ?thesis
      by blast
  qed
qed

lemma own_records_if_then:
  assumes "own_records cs op"
  shows "own_records cs (\<lambda>env. if_then c (op env))"
  unfolding own_records_def
proof (intro allI)
  fix env :: "('a, 'b) impl" and w :: "'a world"
  let ?env0 = "env\<lparr>handler := abort_handler\<rparr>"
  obtain b s where c: "c (prog w) = (b, s)"
    by (cases "c (prog w)")
  show "(if_then c (op env) w = Undefined \<and> if_then c (op ?env0) w = Undefined) \<or>
      (\<exists>w1. grows cs w w1 \<and>
         ((if_then c (op env) w = Normal w1 \<and> if_then c (op ?env0) w = Normal w1) \<or>
          (if_then c (op env) w = std_terminate (handler env) w1 \<and>
           if_then c (op ?env0) w = Aborted w1)))"
  proof (cases b)
    case True
    with c have run: "if_then c (op env) w = op env (w\<lparr>prog := s\<rparr>)"
      "if_then c (op ?env0) w = op ?env0 (w\<lparr>prog := s\<rparr>)"
      by (simp_all add: if_then_def)
    from assms have "(op env (w\<lparr>prog := s\<rparr>) = Undefined \<and> op ?env0 (w\<lparr>prog := s\<rparr>) = Undefined) \<or>
      (\<exists>w1. grows cs (w\<lparr>prog := s\<rparr>) w1 \<and>
         ((op env (w\<lparr>prog := s\<rparr>) = Normal w1 \<and> op ?env0 (w\<lparr>prog := s\<rparr>) = Normal w1) \<or>
          (op env (w\<lparr>prog := s\<rparr>) = std_terminate (handler env) w1 \<and>
           op ?env0 (w\<lparr>prog := s\<rparr>) = Aborted w1)))"
      unfolding own_records_def by blast
    then show ?thesis
      unfolding run using grows_moved [where cs = cs and w = w and s = s] by blast
  next
    case False
    with c have "if_then c (op env) w = Normal (w\<lparr>prog := s\<rparr>)"
      "if_then c (op ?env0) w = Normal (w\<lparr>prog := s\<rparr>)"
      by (simp_all add: if_then_def)
    then show ?thesis
      using grows_same [where cs = cs and w = w and s = s] by blast
  qed
qed

lemma own_records_check: "own_records cs (\<lambda>env. check env cs cond M args)"
  unfolding own_records_def
proof (intro allI)
  fix env :: "('a, 'b) impl" and w :: "'a world"
  let ?env0 = "env\<lparr>handler := abort_handler\<rparr>"
  obtain b s where c: "cond (prog w) = (b, s)"
    by (cases "cond (prog w)")
  let ?op = "\<lambda>env. if_then (unlikely (lit (\<not> b))) (panic env cs M args)"
  from c have run: "check env cs cond M args w = ?op env (w\<lparr>prog := s\<rparr>)"
    "check ?env0 cs cond M args w = ?op ?env0 (w\<lparr>prog := s\<rparr>)"
    by (simp_all add: check_def)
  have "own_records cs ?op"
    by (intro own_records_if_then own_records_panic)
  then have "(?op env (w\<lparr>prog := s\<rparr>) = Undefined \<and> ?op ?env0 (w\<lparr>prog := s\<rparr>) = Undefined) \<or>
      (\<exists>w1. grows cs (w\<lparr>prog := s\<rparr>) w1 \<and>
         ((?op env (w\<lparr>prog := s\<rparr>) = Normal w1 \<and> ?op ?env0 (w\<lparr>prog := s\<rparr>) = Normal w1) \<or>
          (?op env (w\<lparr>prog := s\<rparr>) = std_terminate (handler env) w1 \<and>
           ?op ?env0 (w\<lparr>prog := s\<rparr>) = Aborted w1)))"
    unfolding own_records_def by blast
  then show "(check env cs cond M args w = Undefined \<and> check ?env0 cs cond M args w = Undefined) \<or>
      (\<exists>w1. grows cs w w1 \<and>
         ((check env cs cond M args w = Normal w1 \<and> check ?env0 cs cond M args w = Normal w1) \<or>
          (check env cs cond M args w = std_terminate (handler env) w1 \<and>
           check ?env0 cs cond M args w = Aborted w1)))"
    unfolding run using grows_moved [where cs = cs and w = w and s = s] by blast
qed

lemma own_records_ndebug:
  assumes "own_records cs op"
  shows "own_records cs (\<lambda>env. if \<not> ndebug then op env else skip)"
  using assms own_records_skip [of cs] by (cases ndebug) simp_all

lemma own_records_facility:
  assumes "op \<in> set (facility ndebug cs cond M args)"
  shows "own_records cs op"
proof -
  have base: "own_records cs (\<lambda>env :: ('a, 'b) impl. info env cs M args)"
    "own_records cs (\<lambda>env :: ('a, 'b) impl. warn env cs M args)"
    "own_records cs (\<lambda>env :: ('a, 'b) impl. error env cs M args)"
    unfolding info_def warn_def error_def
    by (rule own_records_stderr_print, simp add: levels_def)+
  note fatal = own_records_panic [of cs M args] own_records_check [of cs cond M args]
  have ifs: "own_records cs (\<lambda>env :: ('a, 'b) impl. info_if env cs cond M args)"
    "own_records cs (\<lambda>env :: ('a, 'b) impl. warn_if env cs cond M args)"
    "own_records cs (\<lambda>env :: ('a, 'b) impl. error_if env cs cond M args)"
    "own_records cs (\<lambda>env :: ('a, 'b) impl. panic_if env cs cond M args)"
    unfolding info_if_def warn_if_def error_if_def panic_if_def
    by (intro own_records_if_then base fatal)+
  have ds: "own_records cs (\<lambda>env :: ('a, 'b) impl. dcheck ndebug env cs cond M args)"
    "own_records cs (\<lambda>env :: ('a, 'b) impl. dinfo ndebug env cs M args)"
    "own_records cs (\<lambda>env :: ('a, 'b) impl. dwarn ndebug env cs M args)"
    "own_records cs (\<lambda>env :: ('a, 'b) impl. derror ndebug env cs M args)"
    "own_records cs (\<lambda>env :: ('a, 'b) impl. dpanic ndebug env cs M args)"
    "own_records cs (\<lambda>env :: ('a, 'b) impl. dinfo_if ndebug env cs cond M args)"
    "own_records cs (\<lambda>env :: ('a, 'b) impl. dwarn_if ndebug env cs cond M args)"
    "own_records cs (\<lambda>env :: ('a, 'b) impl. derror_if ndebug env cs cond M args)"
    "own_records cs (\<lambda>env :: ('a, 'b) impl. dpanic_if ndebug env cs cond M args)"
    unfolding dcheck_def dinfo_def dwarn_def derror_def dpanic_def
      dinfo_if_def dwarn_if_def derror_if_def dpanic_if_def
    by (intro own_records_ndebug base fatal ifs)+
  from assms base fatal ifs ds show ?thesis
    unfolding facility_def by auto
qed

text \<open>
  C8: for every macro of the header, used at call site \<open>cs\<close>, under every implementation:
  what a run does is what it does under the terminate handler that only aborts, followed,
  when \<open>std::terminate\<close> is reached, by what the handler in force does; and under the
  handler that only aborts, so that all that is written is the macro's own, a defined run
  leaves the standard output as it was, the error stream only grows, and every write
  added to it is a record that starts with exactly one of the labels \<open>Info\<close>, \<open>Warn\<close>,
  \<open>Error\<close>, \<open>Panic\<close> followed by the file and the line of \<open>cs\<close>.
\<close>

theorem records_to_stderr_only:
  assumes "op \<in> set (facility ndebug cs cond M args)"
  shows "op env w =
           (case op (env\<lparr>handler := abort_handler\<rparr>) w of
              Aborted w1 \<Rightarrow> std_terminate (handler env) w1
            | r \<Rightarrow> r) \<and>
         (\<forall>w1. final (op (env\<lparr>handler := abort_handler\<rparr>) w) = Some w1 \<longrightarrow>
            stdout w1 = stdout w \<and>
            prefix (stderr w) (stderr w1) \<and>
            list_all (is_record cs) (drop (length (stderr w)) (stderr w1)))"
proof -
  let ?env0 = "env\<lparr>handler := abort_handler\<rparr>"
  from assms have "own_records cs op"
    by (rule own_records_facility)
  then consider "op env w = Undefined" "op ?env0 w = Undefined"
    | w1 where "grows cs w w1" "op env w = Normal w1" "op ?env0 w = Normal w1"
    | w1 where "grows cs w w1" "op env w = std_terminate (handler env) w1" "op ?env0 w = Aborted w1"
    unfolding own_records_def by blast
  then show ?thesis
    by cases (simp_all add: final_def grows_def)
qed

theorem records_to_stderr_only_witness:
  "(\<lambda>env. panic_if env main_cpp_42 (logged ''c'' True) ''X failed'' []) \<in>
     set (facility False main_cpp_42 (logged ''c'' True) ''X failed'' []) \<and>
   panic_if (sample_impl\<lparr>handler := abort_handler\<rparr>) main_cpp_42 (logged ''c'' True) ''X failed'' [] fresh =
     Aborted \<lparr>prog = [''c''],
       stderr = [''[Panic] main.cpp:42 - X failed\<newline>'',
                 ''[Panic] main.cpp:42 - Program terminated due to the error above.\<newline>''],
       stdout = []\<rparr> \<and>
   panic_if sample_impl main_cpp_42 (logged ''c'' True) ''X failed'' [] fresh =
     std_terminate verbose_handler \<lparr>prog = [''c''],
       stderr = [''[Panic] main.cpp:42 - X failed\<newline>'',
                 ''[Panic] main.cpp:42 - Program terminated due to the error above.\<newline>''],
       stdout = []\<rparr> \<and>
   list_all (is_record main_cpp_42)
     [''[Panic] main.cpp:42 - X failed\<newline>'',
      ''[Panic] main.cpp:42 - Program terminated due to the error above.\<newline>'']"
proof -
  let ?op = "\<lambda>env. panic_if env main_cpp_42 (logged ''c'' True) ''X failed'' []"
  let ?w1 = "\<lparr>prog = [''c''],
       stderr = [''[Panic] main.cpp:42 - X failed\<newline>'',
                 ''[Panic] main.cpp:42 - Program terminated due to the error above.\<newline>''],
       stdout = []\<rparr>"
  have mem: "?op \<in> set (facility False main_cpp_42 (logged ''c'' True) ''X failed'' [])"
    by (simp add: facility_def)
  have run: "?op (sample_impl\<lparr>handler := abort_handler\<rparr>) fresh = Aborted ?w1"
    by (simp add: panic_if_def if_then_def unlikely_def logged_def fresh_def
        panic_run [where vs = "[]" and s' = "[''c'']"] eval_args_Nil spec_line_def sample_heads
        std_terminate_def abort_handler_def)
  have h: "handler sample_impl = verbose_handler"
    by (simp add: sample_impl_def)
  from records_to_stderr_only [OF mem, of sample_impl fresh] mem run show ?thesis
    by (simp add: final_def fresh_def h)
qed

subsection \<open>Claim C9: the non-fatal macros keep no state\<close>









end
